theory Spec2Isabelle
  imports Complex_Main "HOL-Library.Sublist"
begin

section \<open>Numbers\<close>

text \<open>
  The class computes with JavaScript numbers. They are modelled as exact rationals together
  with the three non-finite values; the rounding of binary doubles and the sign of zero are
  not represented, so every finite result is the exact one. The model therefore agrees with
  the program wherever the doubles involved are exact, which is the range the class is
  written for (integer amounts of minor units and their quotients by a power of ten).
\<close>

datatype number = Fin rat | NaN | PosInf | NegInf

fun neg :: "number \<Rightarrow> number" where
  "neg (Fin a) = Fin (- a)"
| "neg NaN = NaN"
| "neg PosInf = NegInf"
| "neg NegInf = PosInf"

fun plus_num :: "number \<Rightarrow> number \<Rightarrow> number" where
  "plus_num (Fin a) (Fin b) = Fin (a + b)"
| "plus_num NaN y = NaN"
| "plus_num x NaN = NaN"
| "plus_num PosInf NegInf = NaN"
| "plus_num NegInf PosInf = NaN"
| "plus_num PosInf y = PosInf"
| "plus_num x PosInf = PosInf"
| "plus_num NegInf y = NegInf"
| "plus_num x NegInf = NegInf"

definition minus_num :: "number \<Rightarrow> number \<Rightarrow> number" where
  "minus_num x y = plus_num x (neg y)"

text \<open>The sign of a number that is not NaN: \<open>-1\<close>, \<open>0\<close> or \<open>1\<close>.\<close>

fun sign_num :: "number \<Rightarrow> int" where
  "sign_num (Fin a) = (if a = 0 then 0 else if 0 < a then 1 else - 1)"
| "sign_num NaN = 0"
| "sign_num PosInf = 1"
| "sign_num NegInf = - 1"

definition signed_inf :: "int \<Rightarrow> number" where
  "signed_inf s = (if s = 0 then NaN else if 0 < s then PosInf else NegInf)"

fun times_num :: "number \<Rightarrow> number \<Rightarrow> number" where
  "times_num (Fin a) (Fin b) = Fin (a * b)"
| "times_num NaN y = NaN"
| "times_num x NaN = NaN"
| "times_num x y = signed_inf (sign_num x * sign_num y)"

text \<open>
  Division: a finite quotient, an infinity for a non-zero dividend over zero (the zero
  taken as positive), NaN for \<open>0 / 0\<close> and for infinity over infinity.
\<close>

fun divide_num :: "number \<Rightarrow> number \<Rightarrow> number" where
  "divide_num (Fin a) (Fin b) = (if b = 0 then signed_inf (sign_num (Fin a)) else Fin (a / b))"
| "divide_num NaN y = NaN"
| "divide_num x NaN = NaN"
| "divide_num (Fin a) y = Fin 0"
| "divide_num x (Fin b) = signed_inf (sign_num x * (if b < 0 then - 1 else 1))"
| "divide_num x y = NaN"

text \<open>\<open>x >= 0\<close> and \<open>x > 0\<close>: false on NaN.\<close>

fun ge_zero :: "number \<Rightarrow> bool" where
  "ge_zero (Fin a) = (0 \<le> a)"
| "ge_zero PosInf = True"
| "ge_zero x = False"

fun gt_zero :: "number \<Rightarrow> bool" where
  "gt_zero (Fin a) = (0 < a)"
| "gt_zero PosInf = True"
| "gt_zero x = False"

text \<open>Truthiness of a number, as \<open>||\<close> tests it: zero and NaN are falsy.\<close>

fun truthy :: "number \<Rightarrow> bool" where
  "truthy (Fin a) = (a \<noteq> 0)"
| "truthy NaN = False"
| "truthy x = True"

text \<open>\<open>Math.round\<close> rounds a half towards positive infinity.\<close>

fun round_num :: "number \<Rightarrow> number" where
  "round_num (Fin a) = Fin (of_int \<lfloor>a + 1 / 2\<rfloor>)"
| "round_num x = x"

fun floor_num :: "number \<Rightarrow> number" where
  "floor_num (Fin a) = Fin (of_int \<lfloor>a\<rfloor>)"
| "floor_num x = x"

fun ceil_num :: "number \<Rightarrow> number" where
  "ceil_num (Fin a) = Fin (of_int \<lceil>a\<rceil>)"
| "ceil_num x = x"

fun abs_num :: "number \<Rightarrow> number" where
  "abs_num (Fin a) = Fin \<bar>a\<bar>"
| "abs_num NaN = NaN"
| "abs_num x = PosInf"





text \<open>The helpers at the head of the file: \<open>round\<close>, \<open>pow\<close> and \<open>rounding\<close>.\<close>

definition pow :: "int \<Rightarrow> number" where
  "pow p = Fin (if 0 \<le> p then 10 ^ nat p else 1 / 10 ^ nat (- p))"

definition rounding :: "number \<Rightarrow> number \<Rightarrow> number" where
  "rounding v inc = times_num (round_num (divide_num v inc)) inc"

text \<open>
  \<open>+v.toFixed(4)\<close>: the number whose decimal rendering \<open>toFixed(4)\<close> prints. Below
  \<open>10^21\<close> in magnitude that is the magnitude rounded to four decimals, a half going up,
  under the sign of \<open>v\<close>; from \<open>10^21\<close> on \<open>toFixed\<close> prints the number itself, and so
  does it for NaN and the infinities.
\<close>

definition round_at :: "nat \<Rightarrow> rat \<Rightarrow> int" where
  "round_at f a = \<lfloor>\<bar>a\<bar> * 10 ^ f + 1 / 2\<rfloor>"

fun fixed4 :: "number \<Rightarrow> number" where
  "fixed4 (Fin a) =
     (if 10 ^ 21 \<le> \<bar>a\<bar> then Fin a
      else Fin ((if a < 0 then - 1 else 1) * of_int (round_at 4 a) / 10 ^ 4))"
| "fixed4 x = x"

section \<open>Strings\<close>

text \<open>
  Strings are lists of 8-bit characters. \<open>digits_value\<close> reads a run of decimal digits.
\<close>

definition is_digit :: "char \<Rightarrow> bool" where
  "is_digit c = (48 \<le> (of_char c :: int) \<and> (of_char c :: int) \<le> 57)"

definition digit_value :: "char \<Rightarrow> int" where
  "digit_value c = of_char c - 48"

definition digits_value :: "string \<Rightarrow> int" where
  "digits_value ds = foldl (\<lambda>n c. 10 * n + digit_value c) 0 ds"

text \<open>
  \<open>.replace(/\((.*)\)/, '-$1')\<close>: the leftmost \<open>(\<close> that has a \<open>)\<close> after it on the same
  line is matched up to the last such \<open>)\<close>; the match is replaced by \<open>-\<close> and what stood
  between the two parentheses.
\<close>

definition line_terminator :: "char \<Rightarrow> bool" where
  "line_terminator c = (c = CHR 0x0A \<or> c = CHR 0x0D)"

fun last_close :: "string \<Rightarrow> nat option" where
  "last_close [] = None"
| "last_close (c # cs) =
     (case last_close cs of
        Some k \<Rightarrow> Some (Suc k)
      | None \<Rightarrow> if c = CHR '')'' then Some 0 else None)"

fun paren_negative :: "string \<Rightarrow> string" where
  "paren_negative [] = []"
| "paren_negative (c # cs) =
     (if c = CHR ''(''
      then (case last_close (takeWhile (\<lambda>x. \<not> line_terminator x) cs) of
              Some k \<Rightarrow> CHR ''-'' # take k cs @ drop (Suc k) cs
            | None \<Rightarrow> c # paren_negative cs)
      else c # paren_negative cs)"

text \<open>
  Unary \<open>+\<close> on a string, for the strings that reach it in \<open>parse\<close>: after the two later
  replacements only \<open>-\<close>, digits and \<open>.\<close> are left. The empty string is 0; an optional
  \<open>-\<close> followed by digits with an optional fraction, or by a fraction alone, is that
  number; everything else is NaN.
\<close>

definition unsigned_literal :: "string \<Rightarrow> rat option" where
  "unsigned_literal s =
     (let ip = takeWhile is_digit s; r = dropWhile is_digit s
      in case r of
           [] \<Rightarrow> if ip = [] then None else Some (of_int (digits_value ip))
         | c # fp \<Rightarrow>
             if c = CHR ''.'' \<and> list_all is_digit fp \<and> (ip \<noteq> [] \<or> fp \<noteq> [])
             then Some (of_int (digits_value ip) + of_int (digits_value fp) / 10 ^ length fp)
             else None)"

definition string_to_number :: "string \<Rightarrow> number" where
  "string_to_number s =
     (case s of
        [] \<Rightarrow> Fin 0
      | c # cs \<Rightarrow>
          if c = CHR ''-''
          then (case unsigned_literal cs of None \<Rightarrow> NaN | Some q \<Rightarrow> Fin (- q))
          else (case unsigned_literal s of None \<Rightarrow> NaN | Some q \<Rightarrow> Fin q))"

section \<open>Configuration\<close>

text \<open>
  \<open>settings\<close> is the merged configuration object an instance keeps (\<open>dopFields & defObj\<close>):
  the eight fields of \<open>defObj\<close> are always present, the three of \<open>dopFields\<close> that
  \<open>defaults\<close> lacks may be absent. \<open>opts\<close> is what a caller passes: every field optional.
  The decimal mark is one character, taken literally by the two regular expressions that
  \<open>parse\<close> builds from it; \<open>precision\<close> is an integer.
\<close>

datatype regEx = groupRegex | vedicRegex

record settings =
  symbol :: string
  separator :: string
  decimal :: char
  formatWithSymbol :: bool
  errorOnInvalid :: bool
  precision :: int
  pattern :: string
  negativePattern :: string
  increment :: "number option"
  useVedic :: "bool option"
  groups :: "regEx option"

record opts =
  opt_symbol :: "string option"
  opt_separator :: "string option"
  opt_decimal :: "char option"
  opt_formatWithSymbol :: "bool option"
  opt_errorOnInvalid :: "bool option"
  opt_precision :: "int option"
  opt_pattern :: "string option"
  opt_negativePattern :: "string option"
  opt_increment :: "number option"
  opt_useVedic :: "bool option"
  opt_groups :: "regEx option"

definition defaults :: settings where
  "defaults =
     \<lparr>symbol = ''$'', separator = '','', decimal = CHR ''.'', formatWithSymbol = False,
      errorOnInvalid = False, precision = 2, pattern = ''!#'', negativePattern = ''-!#'',
      increment = None, useVedic = None, groups = None\<rparr>"

definition no_opts :: opts where
  "no_opts =
     \<lparr>opt_symbol = None, opt_separator = None, opt_decimal = None,
      opt_formatWithSymbol = None, opt_errorOnInvalid = None, opt_precision = None,
      opt_pattern = None, opt_negativePattern = None, opt_increment = None,
      opt_useVedic = None, opt_groups = None\<rparr>"

text \<open>\<open>Object.assign({}, d, ov)\<close>: a fresh object with the fields of \<open>d\<close>, overridden by
  those \<open>ov\<close> has.\<close>

definition or_default :: "'a option \<Rightarrow> 'a \<Rightarrow> 'a" where
  "or_default x d = (case x of None \<Rightarrow> d | Some v \<Rightarrow> v)"

definition or_field :: "'a option \<Rightarrow> 'a option \<Rightarrow> 'a option" where
  "or_field x d = (case x of None \<Rightarrow> d | Some v \<Rightarrow> Some v)"

definition assign :: "settings \<Rightarrow> opts \<Rightarrow> settings" where
  "assign d ov =
     \<lparr>symbol = or_default (opt_symbol ov) (symbol d),
      separator = or_default (opt_separator ov) (separator d),
      decimal = or_default (opt_decimal ov) (decimal d),
      formatWithSymbol = or_default (opt_formatWithSymbol ov) (formatWithSymbol d),
      errorOnInvalid = or_default (opt_errorOnInvalid ov) (errorOnInvalid d),
      precision = or_default (opt_precision ov) (precision d),
      pattern = or_default (opt_pattern ov) (pattern d),
      negativePattern = or_default (opt_negativePattern ov) (negativePattern d),
      increment = or_field (opt_increment ov) (increment d),
      useVedic = or_field (opt_useVedic ov) (useVedic d),
      groups = or_field (opt_groups ov) (groups d)\<rparr>"

text \<open>A settings object passed where \<open>opts\<close> is expected, as the methods do with \<open>_settings\<close>.\<close>

definition as_opts :: "settings \<Rightarrow> opts" where
  "as_opts s =
     \<lparr>opt_symbol = Some (symbol s), opt_separator = Some (separator s),
      opt_decimal = Some (decimal s), opt_formatWithSymbol = Some (formatWithSymbol s),
      opt_errorOnInvalid = Some (errorOnInvalid s), opt_precision = Some (precision s),
      opt_pattern = Some (pattern s), opt_negativePattern = Some (negativePattern s),
      opt_increment = increment s, opt_useVedic = useVedic s, opt_groups = groups s\<rparr>"

section \<open>Values and the parser\<close>

text \<open>
  What a caller can pass for \<open>value\<close>: a number, a string, a reference to an instance of the
  class, \<open>undefined\<close>, or anything else (\<open>null\<close>, a boolean, another object).
\<close>

type_synonym ref = nat

datatype jsval = JNumber number | JString string | JInstance ref | JUndefined | JOther

datatype error = InvalidInput | RangeError | Exponential

text \<open>
  \<open>Currency.prototype.value\<close>: nothing in the program assigns it, so reading it gives
  \<open>undefined\<close>; \<open>to_number\<close> is unary \<open>+\<close> on the values that can stand there.
\<close>

definition prototype_value :: jsval where
  "prototype_value = JUndefined"

fun to_number :: "jsval \<Rightarrow> number" where
  "to_number (JNumber n) = n"
| "to_number (JString s) = string_to_number s"
| "to_number v = NaN"

definition parse :: "jsval \<Rightarrow> settings \<Rightarrow> bool \<Rightarrow> error + number" where
  "parse val os useRounding =
     (let precision = pow (precision os);
          finish = (\<lambda>v. let v' = fixed4 v in Inr (if useRounding then round_num v' else v'))
      in case val of
           JNumber n \<Rightarrow> finish (times_num n precision)
         | JInstance r \<Rightarrow> finish (times_num (to_number prototype_value) precision)
         | JString s \<Rightarrow>
             (let kept = filter (\<lambda>c. c = CHR ''-'' \<or> is_digit c \<or> c = decimal os)
                           (paren_negative s);
                  dotted = map (\<lambda>c. if c = decimal os then CHR ''.'' else c) kept;
                  v = times_num (string_to_number dotted) precision
              in finish (if truthy v then v else Fin 0))
         | _ \<Rightarrow> if errorOnInvalid os then Inl InvalidInput else finish (Fin 0))"

section \<open>The store and the constructor\<close>

text \<open>
  Instances and their settings objects live in a store, each kind in a list indexed by
  reference; allocation appends. An instance holds a reference to its settings object, so
  that two objects sharing one would be visible. The fields \<open>value\<close>, \<open>_settings\<close> and
  \<open>_precision\<close> are \<open>the_value\<close>, \<open>the_settings\<close> and \<open>the_precision\<close>.
\<close>

record currency =
  intValue :: number
  the_value :: number
  the_settings :: ref
  the_precision :: number

record heap =
  objects :: "currency list"
  configs :: "settings list"

definition empty_heap :: heap where
  "empty_heap = \<lparr>objects = [], configs = []\<rparr>"

text \<open>
  The constructor. \<open>this.value\<close> is assigned only when \<open>value\<close> is not an instance, and is
  \<open>undefined\<close> otherwise when \<open>parse\<close> reads it. The settings object is the fresh one
  \<open>Object.assign\<close> returns; it and the instance enter the store when the constructor
  returns, so a constructor that throws leaves the store as it was.
\<close>

definition new_Currency :: "heap \<Rightarrow> jsval \<Rightarrow> opts \<Rightarrow> error + ref \<times> heap" where
  "new_Currency h val ov =
     (let this_value = (case val of JInstance r \<Rightarrow> JUndefined | _ \<Rightarrow> val);
          settings0 = assign defaults ov;
          precision = pow (precision settings0)
      in case parse this_value settings0 True of
           Inl e \<Rightarrow> Inl e
         | Inr v \<Rightarrow>
             (let fallback = divide_num (Fin 1) precision;
                  settings1 = settings0
                    \<lparr>increment := Some (case increment settings0 of
                                         None \<Rightarrow> fallback
                                       | Some i \<Rightarrow> if truthy i then i else fallback)\<rparr>;
                  settings2 = settings1
                    \<lparr>groups := Some (if useVedic settings1 = Some True
                                     then vedicRegex else groupRegex)\<rparr>;
                  this = \<lparr>intValue = v, the_value = divide_num v precision,
                          the_settings = length (configs h), the_precision = precision\<rparr>
              in Inr (length (objects h),
                      \<lparr>objects = objects h @ [this], configs = configs h @ [settings2]\<rparr>)))"

section \<open>Arithmetic\<close>

definition settings_of :: "heap \<Rightarrow> ref \<Rightarrow> settings" where
  "settings_of h this = configs h ! the_settings (objects h ! this)"

definition add :: "heap \<Rightarrow> ref \<Rightarrow> jsval \<Rightarrow> error + ref \<times> heap" where
  "add h this number =
     (let c = objects h ! this; s = settings_of h this
      in case parse number s True of
           Inl e \<Rightarrow> Inl e
         | Inr p \<Rightarrow>
             new_Currency h
               (JNumber (divide_num (plus_num (intValue c) p) (the_precision c))) (as_opts s))"

definition subtract :: "heap \<Rightarrow> ref \<Rightarrow> jsval \<Rightarrow> error + ref \<times> heap" where
  "subtract h this number =
     (let c = objects h ! this; s = settings_of h this
      in case parse number s True of
           Inl e \<Rightarrow> Inl e
         | Inr p \<Rightarrow>
             new_Currency h
               (JNumber (divide_num (minus_num (intValue c) p) (the_precision c))) (as_opts s))"

text \<open>\<open>multiply\<close> uses its operand as a number, without \<open>parse\<close>.\<close>

definition multiply :: "heap \<Rightarrow> ref \<Rightarrow> number \<Rightarrow> error + ref \<times> heap" where
  "multiply h this number =
     (let c = objects h ! this; s = settings_of h this
      in new_Currency h
           (JNumber (divide_num (times_num (intValue c) number) (pow (precision s))))
           (as_opts s))"

definition divide' :: "heap \<Rightarrow> ref \<Rightarrow> jsval \<Rightarrow> error + ref \<times> heap" where
  "divide' h this number =
     (let c = objects h ! this; s = settings_of h this
      in case parse number s False of
           Inl e \<Rightarrow> Inl e
         | Inr p \<Rightarrow> new_Currency h (JNumber (divide_num (intValue c) p)) (as_opts s))"

section \<open>Distribution\<close>

text \<open>
  The loop of \<open>distribute\<close> runs while \<open>count !== 0\<close> and decrements \<open>count\<close>, so it ends
  only for a natural number; \<open>None\<close> is a loop that never ends. \<open>_settings\<close> is the
  receiver's settings object, read from the store at each construction.
\<close>

partial_function (option) distribute_loop ::
  "heap \<Rightarrow> number \<Rightarrow> number \<Rightarrow> ref \<Rightarrow> number \<Rightarrow> number \<Rightarrow> number \<Rightarrow> ref list
    \<Rightarrow> (error + ref list \<times> heap) option" where
  "distribute_loop h intValue' precision' settings' split count pennies distribution =
     (if count = Fin 0 then Some (Inr (distribution, h))
      else case new_Currency h (JNumber (divide_num split precision'))
                  (as_opts (configs h ! settings')) of
             Inl e \<Rightarrow> Some (Inl e)
           | Inr (item, h1) \<Rightarrow>
               (case (if gt_zero pennies
                      then (if ge_zero intValue'
                            then add h1 item (JNumber (divide_num (Fin 1) precision'))
                            else subtract h1 item (JNumber (divide_num (Fin 1) precision')))
                      else Inr (item, h1)) of
                  Inl e \<Rightarrow> Some (Inl e)
                | Inr (item', h2) \<Rightarrow>
                    distribute_loop h2 intValue' precision' settings' split
                      (minus_num count (Fin 1)) (minus_num pennies (Fin 1))
                      (distribution @ [item'])))"

declare distribute_loop.simps [code]

definition distribute :: "heap \<Rightarrow> ref \<Rightarrow> number \<Rightarrow> (error + ref list \<times> heap) option" where
  "distribute h this count =
     (let c = objects h ! this;
          split = (if ge_zero (intValue c) then floor_num else ceil_num)
                    (divide_num (intValue c) count);
          pennies = abs_num (minus_num (intValue c) (times_num split count))
      in distribute_loop h (intValue c) (the_precision c) (the_settings c) split count
           pennies [])"

section \<open>Accessors\<close>




section \<open>Rendering\<close>

text \<open>
  \<open>toFixed(f)\<close>: a RangeError unless \<open>0 \<le> f \<le> 100\<close>; the names of the non-finite values;
  below \<open>10^21\<close> in magnitude the digits of the magnitude rounded at \<open>f\<close> decimals (a half
  going up), padded with zeros to at least one digit before the point, after a \<open>-\<close> when
  the number is negative. From \<open>10^21\<close> on \<open>toFixed\<close> prints the exponent notation of the
  double, whose digits the rational model does not have: \<open>Exponential\<close> marks that case
  (it is not an error of the program).
\<close>

definition digit_char :: "int \<Rightarrow> char" where
  "digit_char n = char_of (48 + n)"

function digits_of :: "int \<Rightarrow> string" where
  "digits_of n = (if n < 10 then [digit_char n] else digits_of (n div 10) @ [digit_char (n mod 10)])"
  by pat_completeness auto
termination
  by (relation "measure nat") auto

declare digits_of.simps [simp del]

definition point_at :: "nat \<Rightarrow> string \<Rightarrow> string" where
  "point_at f m =
     (if f = 0 then m
      else let padded = replicate (Suc f - length m) (CHR ''0'') @ m;
               k = length padded - f
           in take k padded @ [CHR ''.''] @ drop k padded)"

definition toFixed :: "number \<Rightarrow> int \<Rightarrow> error + string" where
  "toFixed x f =
     (if f < 0 \<or> 100 < f then Inl RangeError
      else case x of
             NaN \<Rightarrow> Inr ''NaN''
           | PosInf \<Rightarrow> Inr ''Infinity''
           | NegInf \<Rightarrow> Inr ''-Infinity''
           | Fin a \<Rightarrow>
               if 10 ^ 21 \<le> \<bar>a\<bar> then Inl Exponential
               else Inr ((if a < 0 then [CHR ''-''] else [])
                         @ point_at (nat f) (digits_of (round_at (nat f) a))))"

definition toString :: "heap \<Rightarrow> ref \<Rightarrow> error + string" where
  "toString h this =
     (let c = objects h ! this; s = settings_of h this
      in toFixed (rounding (divide_num (intValue c) (the_precision c))
                    (case increment s of None \<Rightarrow> NaN | Some i \<Rightarrow> i))
           (precision s))"








section \<open>Well-formed instances\<close>

text \<open>
  What the constructor establishes for the instance it returns: its \<open>_precision\<close> is the
  power of ten of its settings' \<open>precision\<close>, and its settings object has a truthy
  \<open>increment\<close> and the \<open>groups\<close> that \<open>useVedic\<close> selects.
\<close>

definition settled :: "settings \<Rightarrow> bool" where
  "settled s =
     ((case increment s of None \<Rightarrow> False | Some i \<Rightarrow> truthy i)
      \<and> groups s = Some (if useVedic s = Some True then vedicRegex else groupRegex))"

definition valid :: "heap \<Rightarrow> ref \<Rightarrow> bool" where
  "valid h this =
     (this < length (objects h)
      \<and> the_settings (objects h ! this) < length (configs h)
      \<and> settled (settings_of h this)
      \<and> the_precision (objects h ! this) = pow (precision (settings_of h this)))"

text \<open>
  A later store extends an earlier one when both lists have only grown at the end;
  \<open>holds h r s v\<close> says that \<open>r\<close> is a well-formed instance of \<open>h\<close> with settings \<open>s\<close> and the
  integer amount \<open>v\<close>.
\<close>

definition extends :: "heap \<Rightarrow> heap \<Rightarrow> bool" where
  "extends h h' = (prefix (objects h) (objects h') \<and> prefix (configs h) (configs h'))"


text \<open>
  \<open>fresh_like h s h' r\<close>: in the later store \<open>h'\<close> the reference \<open>r\<close> is a well-formed
  instance that \<open>h\<close> did not have, and its settings are \<open>s\<close>. \<open>loop_post\<close> is what the loop
  of \<open>distribute\<close> guarantees about a result \<open>y\<close> it returns from the store \<open>h\<close> with the
  list \<open>acc\<close> built so far.
\<close>

definition fresh_like :: "heap \<Rightarrow> settings \<Rightarrow> heap \<Rightarrow> ref \<Rightarrow> bool" where
  "fresh_like h s h' r =
     (length (objects h) \<le> r \<and> extends h h' \<and> valid h' r \<and> settings_of h' r = s)"

definition loop_post :: "heap \<Rightarrow> ref \<Rightarrow> ref list \<Rightarrow> error + ref list \<times> heap \<Rightarrow> bool" where
  "loop_post h sref acc y =
     (sref < length (configs h) \<longrightarrow> settled (configs h ! sref) \<longrightarrow>
      (\<forall>rs h'. y = Inr (rs, h') \<longrightarrow>
         extends h h' \<and> (\<exists>new. rs = acc @ new \<and>
           (\<forall>r\<in>set new. fresh_like h (configs h ! sref) h' r))))"

section \<open>Method calls and chains\<close>





text \<open>
  \<open>derived h0 r0 h r\<close>: the instance \<open>r\<close> of store \<open>h\<close> comes from the instance \<open>r0\<close> of
  store \<open>h0\<close> by a chain of arithmetic operations, each applied to the value the one
  before produced.
\<close>

inductive derived :: "heap \<Rightarrow> ref \<Rightarrow> heap \<Rightarrow> ref \<Rightarrow> bool" for h0 :: heap and r0 :: ref where
  origin: "derived h0 r0 h0 r0"
| by_add: "derived h0 r0 h r \<Longrightarrow> add h r x = Inr (r', h') \<Longrightarrow> derived h0 r0 h' r'"
| by_subtract: "derived h0 r0 h r \<Longrightarrow> subtract h r x = Inr (r', h') \<Longrightarrow> derived h0 r0 h' r'"
| by_multiply: "derived h0 r0 h r \<Longrightarrow> multiply h r n = Inr (r', h') \<Longrightarrow> derived h0 r0 h' r'"
| by_divide: "derived h0 r0 h r \<Longrightarrow> divide' h r x = Inr (r', h') \<Longrightarrow> derived h0 r0 h' r'"
| by_distribute:
    "derived h0 r0 h r \<Longrightarrow> distribute h r count = Some (Inr (rs, h')) \<Longrightarrow> r' \<in> set rs
       \<Longrightarrow> derived h0 r0 h' r'"


definition ten_dollars :: heap where
  "ten_dollars =
     (case new_Currency empty_heap (JNumber (Fin 10)) no_opts of
        Inr (r, h) \<Rightarrow> h
      | Inl e \<Rightarrow> empty_heap)"

text \<open>Options that only set \<open>errorOnInvalid\<close>.\<close>

definition strict :: opts where
  "strict = no_opts\<lparr>opt_errorOnInvalid := Some True\<rparr>"

definition lenient :: opts where
  "lenient = no_opts\<lparr>opt_errorOnInvalid := Some False\<rparr>"





section \<open>The constructor on numbers\<close>

lemma assign_as_opts: "assign defaults (as_opts s) = s"
  by (cases s)
    (simp add: assign_def as_opts_def or_default_def or_field_def defaults_def
      split: option.splits)

lemma floor_int_half: "\<lfloor>(of_int m :: rat) + 1 / 2\<rfloor> = m"
  by (rule floor_unique) simp_all

lemma round_num_int: "round_num (Fin (of_int k)) = Fin (of_int k)"
  by (simp add: floor_int_half)

lemma round_at_int: "round_at f (of_int k) = \<bar>k\<bar> * 10 ^ f"
proof -
  have "\<bar>(of_int k :: rat)\<bar> * 10 ^ f + 1 / 2 = of_int (\<bar>k\<bar> * 10 ^ f) + 1 / 2"
    by simp
  then show ?thesis
    unfolding round_at_def by (simp only: floor_int_half)
qed

lemma fixed4_int: "fixed4 (Fin (of_int k)) = Fin (of_int k)"
  by (simp add: round_at_int abs_if)

lemma parse_number:
  "parse (JNumber n) s r =
     Inr (if r then round_num (fixed4 (times_num n (pow (precision s))))
          else fixed4 (times_num n (pow (precision s))))"
  by (simp add: parse_def Let_def)



lemma settled_update:
  assumes "settled s"
  shows "s\<lparr>increment := Some (case increment s of None \<Rightarrow> d | Some i \<Rightarrow> if truthy i then i else d),
           groups := Some (if useVedic s = Some True then vedicRegex else groupRegex)\<rparr> = s"
  using assms by (cases s) (auto simp: settled_def split: option.splits)

lemma new_Currency_number:
  assumes "settled s"
  shows "new_Currency h (JNumber n) (as_opts s) =
           Inr (length (objects h),
                \<lparr>objects = objects h @
                   [\<lparr>intValue = round_num (fixed4 (times_num n (pow (precision s)))),
                     the_value = divide_num (round_num (fixed4 (times_num n (pow (precision s)))))
                                   (pow (precision s)),
                     the_settings = length (configs h),
                     the_precision = pow (precision s)\<rparr>],
                 configs = configs h @ [s]\<rparr>)"
  using settled_update [OF assms]
  by (simp add: new_Currency_def assign_as_opts parse_number Let_def)

lemma extends_refl: "extends h h"
  by (simp add: extends_def)

lemma extends_trans: "extends h1 h2 \<Longrightarrow> extends h2 h3 \<Longrightarrow> extends h1 h3"
  by (auto simp: extends_def)

lemma extends_length:
  "extends h h' \<Longrightarrow> length (objects h) \<le> length (objects h') \<and> length (configs h) \<le> length (configs h')"
  by (auto simp: extends_def prefix_length_le)

lemma extends_object: "extends h h' \<Longrightarrow> r < length (objects h) \<Longrightarrow> objects h' ! r = objects h ! r"
  by (auto simp: extends_def prefix_def nth_append)

lemma extends_config: "extends h h' \<Longrightarrow> r < length (configs h) \<Longrightarrow> configs h' ! r = configs h ! r"
  by (auto simp: extends_def prefix_def nth_append)

lemma extends_valid:
  assumes "extends h h'" "valid h r"
  shows "valid h' r \<and> objects h' ! r = objects h ! r \<and> settings_of h' r = settings_of h r"
proof -
  from assms(2) have r: "r < length (objects h)" and c: "the_settings (objects h ! r) < length (configs h)"
    by (simp_all add: valid_def)
  have o: "objects h' ! r = objects h ! r" using assms(1) r by (rule extends_object)
  have s: "settings_of h' r = settings_of h r"
    using extends_config [OF assms(1) c] by (simp add: settings_of_def o)
  from assms(2) extends_length [OF assms(1)] r c have "valid h' r"
    by (simp add: valid_def o s)
  with o s show ?thesis by simp
qed


lemma new_Currency_grows:
  assumes "new_Currency h v ov = Inr (r, h')"
  shows "r = length (objects h) \<and> extends h h' \<and> length (objects h') = Suc (length (objects h))"
  using assms
  by (auto simp: new_Currency_def Let_def extends_def split: sum.splits)









section \<open>Distribution: the shares\<close>








lemma truthy_unit: "truthy (divide_num (Fin 1) (pow p))"
  by (simp add: pow_def)

lemma new_Currency_valid:
  assumes "new_Currency h v ov = Inr (r, h')"
  shows "valid h' r"
  using assms
  by (auto simp: new_Currency_def Let_def valid_def settled_def settings_of_def nth_append
      truthy_unit split: sum.splits option.splits)



section \<open>Inputs that are not numbers\<close>

lemma fixed4_zero: "fixed4 (Fin 0) = Fin 0"
  using fixed4_int [of 0] by (simp only: of_int_0)

lemma round_num_zero: "round_num (Fin 0) = Fin 0"
  using round_num_int [of 0] by (simp only: of_int_0)

lemma parse_undefined:
  "parse JUndefined os r = (if errorOnInvalid os then Inl InvalidInput else Inr (Fin 0))"
  by (simp only: parse_def Let_def jsval.case fixed4_zero round_num_zero if_cancel)

lemma parse_instance_NaN: "parse (JInstance a) os r = Inr NaN"
  by (simp add: parse_def prototype_value_def pow_def Let_def)

lemma parse_raises_iff:
  "parse v os r = Inl e \<longleftrightarrow> e = InvalidInput \<and> errorOnInvalid os \<and> (v = JUndefined \<or> v = JOther)"
  by (cases v) (auto simp: parse_def Let_def)

lemma new_Currency_Inl:
  "new_Currency h v ov = Inl e \<longleftrightarrow>
     parse (case v of JInstance r \<Rightarrow> JUndefined | _ \<Rightarrow> v) (assign defaults ov) True = Inl e"
  by (cases "parse (case v of JInstance r \<Rightarrow> JUndefined | _ \<Rightarrow> v) (assign defaults ov) True")
    (simp_all add: new_Currency_def Let_def)

lemma new_Currency_raises_iff:
  "new_Currency h v ov = Inl e \<longleftrightarrow>
     e = InvalidInput \<and> errorOnInvalid (assign defaults ov)
     \<and> (\<forall>n. v \<noteq> JNumber n) \<and> (\<forall>s. v \<noteq> JString s)"
  by (cases v) (simp_all add: new_Currency_Inl parse_raises_iff)

lemma parse_abc:
  assumes "decimal os = CHR ''.''"
  shows "parse (JString ''abc'') os r = Inr (Fin 0)"
proof -
  have "filter (\<lambda>c. c = CHR ''-'' \<or> is_digit c \<or> c = decimal os) (paren_negative ''abc'') = []"
    by (simp add: assms is_digit_def)
  then show ?thesis
    by (simp add: parse_def Let_def string_to_number_def pow_def fixed4_zero round_num_zero
        del: fixed4.simps round_num.simps)
qed

lemma toFixed_zero_2: "toFixed (Fin 0) 2 = Inr ''0.00''"
  by code_simp


section \<open>What every operation leaves in place\<close>

lemma new_Currency_fresh:
  assumes "settled s" "new_Currency h (JNumber n) (as_opts s) = Inr (r, h')"
  shows "fresh_like h s h' r"
  using assms(2) unfolding new_Currency_number [OF assms(1)]
  using assms(1)
  by (auto simp: fresh_like_def extends_def valid_def settings_of_def)

lemma add_fresh:
  assumes "valid h this" "add h this x = Inr (r, h')"
  shows "fresh_like h (settings_of h this) h' r"
proof -
  from assms(1) have st: "settled (settings_of h this)" by (simp add: valid_def)
  from assms(2) obtain n where
    "new_Currency h (JNumber n) (as_opts (settings_of h this)) = Inr (r, h')"
    by (auto simp: add_def Let_def split: sum.splits)
  with st show ?thesis by (rule new_Currency_fresh)
qed

lemma subtract_fresh:
  assumes "valid h this" "subtract h this x = Inr (r, h')"
  shows "fresh_like h (settings_of h this) h' r"
proof -
  from assms(1) have st: "settled (settings_of h this)" by (simp add: valid_def)
  from assms(2) obtain n where
    "new_Currency h (JNumber n) (as_opts (settings_of h this)) = Inr (r, h')"
    by (auto simp: subtract_def Let_def split: sum.splits)
  with st show ?thesis by (rule new_Currency_fresh)
qed

lemma multiply_fresh:
  assumes "valid h this" "multiply h this x = Inr (r, h')"
  shows "fresh_like h (settings_of h this) h' r"
proof -
  from assms(1) have st: "settled (settings_of h this)" by (simp add: valid_def)
  from assms(2) obtain n where
    "new_Currency h (JNumber n) (as_opts (settings_of h this)) = Inr (r, h')"
    by (auto simp: multiply_def Let_def)
  with st show ?thesis by (rule new_Currency_fresh)
qed

lemma divide_fresh:
  assumes "valid h this" "divide' h this x = Inr (r, h')"
  shows "fresh_like h (settings_of h this) h' r"
proof -
  from assms(1) have st: "settled (settings_of h this)" by (simp add: valid_def)
  from assms(2) obtain n where
    "new_Currency h (JNumber n) (as_opts (settings_of h this)) = Inr (r, h')"
    by (auto simp: divide'_def Let_def split: sum.splits)
  with st show ?thesis by (rule new_Currency_fresh)
qed

lemma fresh_like_later:
  assumes "fresh_like h1 s h2 r" "extends h0 h1" "extends h2 h3"
  shows "fresh_like h0 s h3 r"
proof -
  from assms(1) have a: "length (objects h1) \<le> r" "extends h1 h2" "valid h2 r" "settings_of h2 r = s"
    by (simp_all add: fresh_like_def)
  from extends_valid [OF assms(3) a(3)] a(4) have "valid h3 r" "settings_of h3 r = s" by simp_all
  moreover have "extends h0 h3" using assms(2) a(2) assms(3) by (blast intro: extends_trans)
  moreover have "length (objects h0) \<le> r" using extends_length [OF assms(2)] a(1) by simp
  ultimately show ?thesis by (simp add: fresh_like_def)
qed

lemma distribute_loop_fresh:
  assumes "distribute_loop h iv pr sref sp count pennies acc = Some y"
  shows "loop_post h sref acc y"
proof (rule distribute_loop.raw_induct
    [where P = "\<lambda>h iv pr sref sp count pennies acc y. loop_post h sref acc y", OF _ assms])
  fix loop h iv pr sref sp count pennies acc y
  assume IH: "\<And>h iv pr sref sp count pennies acc y.
                loop h iv pr sref sp count pennies acc = Some y \<Longrightarrow> loop_post h sref acc y"
    and whole: "(if count = Fin 0 then Some (Inr (acc, h))
      else case new_Currency h (JNumber (divide_num sp pr)) (as_opts (configs h ! sref)) of
             Inl e \<Rightarrow> Some (Inl e)
           | Inr (item, h1) \<Rightarrow>
               (case (if gt_zero pennies
                      then (if ge_zero iv
                            then add h1 item (JNumber (divide_num (Fin 1) pr))
                            else subtract h1 item (JNumber (divide_num (Fin 1) pr)))
                      else Inr (item, h1)) of
                  Inl e \<Rightarrow> Some (Inl e)
                | Inr (item', h2) \<Rightarrow>
                    loop h2 iv pr sref sp (minus_num count (Fin 1)) (minus_num pennies (Fin 1))
                      (acc @ [item']))) = Some y"
  show "loop_post h sref acc y"
    unfolding loop_post_def
  proof (intro impI allI)
    fix rs h'
    assume l: "sref < length (configs h)" and st: "settled (configs h ! sref)"
      and y: "y = Inr (rs, h')"
    let ?s = "configs h ! sref"
    show "extends h h' \<and> (\<exists>new. rs = acc @ new \<and> (\<forall>r\<in>set new. fresh_like h ?s h' r))"
    proof (cases "count = Fin 0")
      case True
      with whole have "Some (Inr (acc, h)) = Some y" by (simp only: simp_thms if_True)
      with y have "rs = acc" "h' = h" by simp_all
      then show ?thesis by (simp add: extends_refl)
    next
      case False
      obtain item h1 where
        c: "new_Currency h (JNumber (divide_num sp pr)) (as_opts ?s) = Inr (item, h1)"
        using new_Currency_number [OF st, of h "divide_num sp pr"] by simp
      have f1: "fresh_like h ?s h1 item" using st c by (rule new_Currency_fresh)
      then have e1: "extends h h1" and v1: "valid h1 item" and s1: "settings_of h1 item = ?s"
        by (simp_all add: fresh_like_def)
      let ?step = "if gt_zero pennies
                   then (if ge_zero iv then add h1 item (JNumber (divide_num (Fin 1) pr))
                         else subtract h1 item (JNumber (divide_num (Fin 1) pr)))
                   else Inr (item, h1)"
      from whole False have
        body: "(case ?step of
                  Inl e \<Rightarrow> Some (Inl e)
                | Inr (item', h2) \<Rightarrow>
                    loop h2 iv pr sref sp (minus_num count (Fin 1)) (minus_num pennies (Fin 1))
                      (acc @ [item'])) = Some y"
        by (simp only: if_False c sum.case prod.case)
      obtain item' h2 where
        step: "?step = Inr (item', h2)"
        and run: "loop h2 iv pr sref sp (minus_num count (Fin 1)) (minus_num pennies (Fin 1))
                    (acc @ [item']) = Some (Inr (rs, h'))"
      proof (cases ?step)
        case (Inl e)
        with body y show ?thesis by (simp only: sum.case) simp
      next
        case (Inr p)
        obtain a b where p: "p = (a, b)" by (cases p)
        from body y have "loop b iv pr sref sp (minus_num count (Fin 1)) (minus_num pennies (Fin 1))
                    (acc @ [a]) = Some (Inr (rs, h'))"
          unfolding Inr p by (simp only: sum.case prod.case)
        with Inr p that show ?thesis by simp
      qed
      have "fresh_like h ?s h2 item' \<and> extends h1 h2"
      proof (cases "gt_zero pennies")
        case False
        with step f1 show ?thesis by (simp add: extends_refl)
      next
        case True
        with step add_fresh [OF v1] subtract_fresh [OF v1] s1
        have f: "fresh_like h1 ?s h2 item'" by (auto split: if_splits)
        from fresh_like_later [OF f e1 extends_refl] f show ?thesis
          by (simp add: fresh_like_def)
      qed
      then have f2: "fresh_like h ?s h2 item'" and e2: "extends h1 h2" by simp_all
      have e: "extends h h2" using e1 e2 by (rule extends_trans)
      have l2: "sref < length (configs h2)" using extends_length [OF e] l by simp
      have g2: "configs h2 ! sref = ?s" using extends_config [OF e l] .
      from IH [OF run] l2 st g2 obtain new where
        e3: "extends h2 h'" and rs: "rs = (acc @ [item']) @ new"
        and all: "\<forall>r\<in>set new. fresh_like h2 ?s h' r"
        unfolding loop_post_def by auto
      have "extends h h'" using e e3 by (rule extends_trans)
      moreover have "rs = acc @ (item' # new)" using rs by simp
      moreover have "\<forall>r\<in>set (item' # new). fresh_like h ?s h' r"
      proof
        fix r assume "r \<in> set (item' # new)"
        then consider "r = item'" | "r \<in> set new" by auto
        then show "fresh_like h ?s h' r"
        proof cases
          case 1
          with fresh_like_later [OF f2 extends_refl e3] show ?thesis by simp
        next
          case 2
          with all have "fresh_like h2 ?s h' r" by simp
          from fresh_like_later [OF this e extends_refl] show ?thesis .
        qed
      qed
      ultimately show ?thesis by blast
    qed
  qed
qed

lemma distribute_fresh:
  assumes "valid h this" "distribute h this count = Some (Inr (rs, h'))"
  shows "extends h h' \<and> (\<forall>r\<in>set rs. fresh_like h (settings_of h this) h' r)"
proof -
  from assms(1) have l: "the_settings (objects h ! this) < length (configs h)"
    and st: "settled (configs h ! the_settings (objects h ! this))"
    by (simp_all add: valid_def settings_of_def)
  from assms(2) have "loop_post h (the_settings (objects h ! this)) [] (Inr (rs, h'))"
    unfolding distribute_def Let_def by (rule distribute_loop_fresh)
  with l st show ?thesis
    by (simp add: loop_post_def settings_of_def)
qed

lemma add_number_returns:
  assumes "valid h this"
  shows "\<exists>h'. add h this (JNumber n) = Inr (length (objects h), h')"
proof -
  from assms have "settled (settings_of h this)" by (simp add: valid_def)
  then show ?thesis
    by (simp add: add_def Let_def parse_number new_Currency_number)
qed


section \<open>Decimal strings in and out\<close>

























section \<open>Claims about distribution\<close>





section \<open>Claims about the parser and the constructor\<close>

text \<open>
  C2. The claim: \<open>InvalidInput\<close> is raised by construction or \<open>parse\<close> exactly when
  \<open>errorOnInvalid\<close> is on and the input is neither a number, nor a string, nor an
  instance. \<open>parse_raises_iff\<close> shows that of \<open>parse\<close>; the constructor, by
  \<open>new_Currency_raises_iff\<close>, also raises on an instance, although its documentation
  lists instances among its inputs and \<open>parse\<close> has a branch for them. The theorem
  evaluates the constructor at such an input.
\<close>

theorem constructor_raises_on_instance:
  "new_Currency ten_dollars (JInstance 0) strict = Inl InvalidInput"
  by (simp add: new_Currency_raises_iff strict_def no_opts_def assign_def or_default_def)

text \<open>
  C3. \<open>parse\<close> on an instance reads \<open>Currency.prototype.value\<close> and not the instance: any
  two instances give the same result, and so they do as operands of \<open>add\<close>, \<open>subtract\<close>
  and \<open>divide\<close>.
\<close>

theorem parse_ignores_instance:
  "parse (JInstance a) os r = parse (JInstance b) os r
   \<and> add h this (JInstance a) = add h this (JInstance b)
   \<and> subtract h this (JInstance a) = subtract h this (JInstance b)
   \<and> divide' h this (JInstance a) = divide' h this (JInstance b)"
  by (simp add: parse_instance_NaN add_def subtract_def divide'_def)

text \<open>
  C10. Constructing from an instance never copies its amount: the constructor raises
  \<open>InvalidInput\<close> when \<open>errorOnInvalid\<close> is on, and returns an instance of amount 0 when it
  is off.
\<close>

theorem instance_input_not_copied:
  "(errorOnInvalid (assign defaults ov) \<longrightarrow> new_Currency h (JInstance v) ov = Inl InvalidInput)
   \<and> (\<not> errorOnInvalid (assign defaults ov) \<longrightarrow>
        (\<exists>r h'. new_Currency h (JInstance v) ov = Inr (r, h') \<and> intValue (objects h' ! r) = Fin 0))"
  by (simp add: new_Currency_def parse_undefined Let_def)

theorem instance_input_not_copied_witness:
  "errorOnInvalid (assign defaults strict)
   \<and> new_Currency ten_dollars (JInstance 0) strict = Inl InvalidInput
   \<and> \<not> errorOnInvalid (assign defaults lenient)
   \<and> (\<exists>r h'. new_Currency ten_dollars (JInstance 0) lenient = Inr (r, h')
         \<and> intValue (objects h' ! r) = Fin 0)"
proof -
  have s: "errorOnInvalid (assign defaults strict)" by code_simp
  have l: "\<not> errorOnInvalid (assign defaults lenient)" by code_simp
  from instance_input_not_copied [of strict ten_dollars 0]
    instance_input_not_copied [of lenient ten_dollars 0] s l
  show ?thesis by simp
qed

text \<open>
  C7. Under the default configuration the string \<open>abc\<close> gives an instance that prints as
  \<open>0.00\<close>, whether \<open>errorOnInvalid\<close> is off or on: a string never raises. The claim's second
  half, that \<open>errorOnInvalid\<close> makes this input raise, fails.
\<close>

theorem abc_is_zero:
  "\<exists>r h'. new_Currency h (JString ''abc'') (no_opts\<lparr>opt_errorOnInvalid := Some b\<rparr>) = Inr (r, h')
           \<and> toString h' r = Inr ''0.00''"
proof -
  let ?ov = "no_opts\<lparr>opt_errorOnInvalid := Some b\<rparr>"
  have s: "assign defaults ?ov = defaults\<lparr>errorOnInvalid := b\<rparr>"
    by (simp add: assign_def no_opts_def or_default_def or_field_def defaults_def)
  have p: "parse (JString ''abc'') (defaults\<lparr>errorOnInvalid := b\<rparr>) True = Inr (Fin 0)"
    by (rule parse_abc) (simp add: defaults_def)
  let ?h' = "\<lparr>objects = objects h @
                 [\<lparr>intValue = Fin 0, the_value = Fin 0, the_settings = length (configs h),
                   the_precision = Fin 100\<rparr>],
               configs = configs h @
                 [defaults\<lparr>errorOnInvalid := b, increment := Some (Fin (1 / 100)),
                           groups := Some groupRegex\<rparr>]\<rparr>"
  have c: "new_Currency h (JString ''abc'') ?ov = Inr (length (objects h), ?h')"
    unfolding new_Currency_def jsval.case s p Let_def sum.case
    by (simp add: defaults_def pow_def)
  have "toString ?h' (length (objects h)) = toFixed (Fin 0) 2"
    by (simp add: toString_def settings_of_def rounding_def defaults_def round_num_zero
        del: round_num.simps)
  with c show ?thesis by (simp only: toFixed_zero_2) blast
qed

theorem abc_strict_counterexample:
  "new_Currency empty_heap (JString ''abc'') strict \<noteq> Inl InvalidInput"
  by (simp add: new_Currency_raises_iff)

section \<open>Claims about the accessors\<close>




section \<open>Claims about immutability and configuration\<close>



text \<open>
  C5. Every value produced along a chain of \<open>add\<close>, \<open>subtract\<close>, \<open>multiply\<close>, \<open>divide\<close> and
  \<open>distribute\<close> from a well-formed instance carries settings equal, field by field, to
  those of that instance.
\<close>

theorem settings_propagate:
  assumes "valid h0 r0" "derived h0 r0 h r"
  shows "settings_of h r = settings_of h0 r0"
proof -
  from assms(2) have "valid h r \<and> settings_of h r = settings_of h0 r0"
  proof (induction rule: derived.induct)
    case origin
    with assms(1) show ?case by simp
  next
    case (by_add h r x r' h')
    with add_fresh [of h r x r' h'] show ?case by (simp add: fresh_like_def)
  next
    case (by_subtract h r x r' h')
    with subtract_fresh [of h r x r' h'] show ?case by (simp add: fresh_like_def)
  next
    case (by_multiply h r n r' h')
    with multiply_fresh [of h r n r' h'] show ?case by (simp add: fresh_like_def)
  next
    case (by_divide h r x r' h')
    with divide_fresh [of h r x r' h'] show ?case by (simp add: fresh_like_def)
  next
    case (by_distribute h r count rs h' r')
    with distribute_fresh [of h r count rs h'] show ?case by (simp add: fresh_like_def)
  qed
  then show ?thesis by simp
qed

theorem settings_propagate_witness:
  "valid ten_dollars 0
   \<and> (\<exists>h r. derived ten_dollars 0 h r \<and> r = 1
         \<and> settings_of h r = settings_of ten_dollars 0)"
proof -
  have v: "valid ten_dollars 0" by code_simp
  have l: "length (objects ten_dollars) = 1" by code_simp
  from add_number_returns [OF v, of "Fin 5"] l obtain h' where
    "add ten_dollars 0 (JNumber (Fin 5)) = Inr (1, h')" by auto
  with derived.origin [of ten_dollars 0] have d: "derived ten_dollars 0 h' 1"
    by (rule derived.by_add)
  from settings_propagate [OF v d] d v show ?thesis by blast
qed

section \<open>Claims about rendering\<close>





end
